theory Spec2Isabelle
  imports Complex_Main
begin

section \<open>Data model (registry/registration.go)\<close>

type_synonym ServiceName = string

record Registration =
  ServiceName :: ServiceName
  ServiceURL :: string
  RequireServices :: "ServiceName list"
  ServiceUpdateURL :: string

record patchEntry =
  Name :: ServiceName
  URL :: string

text \<open>
  A Go slice is modelled by the list of its elements; a nil slice and an empty slice are
  both the empty list (they have the same length and the same elements).
\<close>

record patch =
  Added :: "patchEntry list"
  Removed :: "patchEntry list"

text \<open>
  The errors the package creates: \<open>NoProviders n\<close> is
  \<^verbatim>\<open>fmt.Errorf("no providers available for service %v", n)\<close>, \<open>ServiceNotFound u\<close> is
  \<^verbatim>\<open>fmt.Errorf("service at url %s not found", u)\<close>, and \<open>PostError\<close> is the
  error \<^verbatim>\<open>http.Post\<close> hands back inside \<^verbatim>\<open>sendPatch\<close> when the request gets no response.
\<close>

datatype err = NoProviders ServiceName | ServiceNotFound string | PostError string

text \<open>What a call produces: a value, an error value, or a run-time panic.\<close>

datatype 'a outcome = Returned 'a | Failed err | Panicked

section \<open>The provider cache (registry/client.go)\<close>

type_synonym services = "ServiceName \<rightharpoonup> string list"

text \<open>Go's \<^verbatim>\<open>m[k]\<close> on a map of slices: the zero value (a nil slice) when the key is absent.\<close>

definition slice_at :: "services \<Rightarrow> ServiceName \<Rightarrow> string list" where
  "slice_at s n = (case s n of None \<Rightarrow> [] | Some us \<Rightarrow> us)"

text \<open>
  The first loop of \<^verbatim>\<open>providers.Update\<close>:
  \<^verbatim>\<open>
  for _, patchEntry := range pat.Added {
      if _, ok := p.services[patchEntry.Name]; !ok {
          p.services[patchEntry.Name] = make([]string, 0)
      }
      p.services[patchEntry.Name] = append(p.services[patchEntry.Name], patchEntry.URL)
  }
  \<close>
\<close>

definition add_entry :: "patchEntry \<Rightarrow> services \<Rightarrow> services" where
  "add_entry e s =
     (let s1 = (if s (Name e) = None then s(Name e \<mapsto> []) else s)
      in s1(Name e \<mapsto> slice_at s1 (Name e) @ [URL e]))"

fun add_entries :: "patchEntry list \<Rightarrow> services \<Rightarrow> services" where
  "add_entries [] s = s"
| "add_entries (e # es) s = add_entries es (add_entry e s)"

text \<open>
  The inner loop of the second loop, from index \<open>i\<close> on:
  \<^verbatim>\<open>
  for i := range providersURLs {
      if providersURLs[i] == patchEntry.URL {
          p.services[patchEntry.Name] = append(providersURLs[:i], providersURLs[i+1:]...)
          break
      }
  }
  \<close>
  It yields the slice to store at the first match, and nothing when the loop runs out.
\<close>

function scan_urls :: "string list \<Rightarrow> string \<Rightarrow> nat \<Rightarrow> string list option" where
  "scan_urls us u i =
     (if i < length us
      then (if us ! i = u then Some (take i us @ drop (Suc i) us)
            else scan_urls us u (Suc i))
      else None)"
  by pat_completeness auto
termination
  by (relation "measure (\<lambda>(us, u, i). length us - i)") auto

declare scan_urls.simps [simp del]

definition remove_entry :: "patchEntry \<Rightarrow> services \<Rightarrow> services" where
  "remove_entry e s =
     (case s (Name e) of
        None \<Rightarrow> s
      | Some providersURLs \<Rightarrow>
          (case scan_urls providersURLs (URL e) 0 of
             None \<Rightarrow> s
           | Some us \<Rightarrow> s(Name e \<mapsto> us)))"

fun remove_entries :: "patchEntry list \<Rightarrow> services \<Rightarrow> services" where
  "remove_entries [] s = s"
| "remove_entries (e # es) s = remove_entries es (remove_entry e s)"

definition Update :: "services \<Rightarrow> patch \<Rightarrow> services" where
  "Update s pat = remove_entries (Removed pat) (add_entries (Added pat) s)"

text \<open>
  \<^verbatim>\<open>providers.get\<close>:
  \<^verbatim>\<open>
  providers, ok := p.services[name]
  if !ok { return "", fmt.Errorf("no providers available for service %v", name) }
  idx := int(rand.Float32() * float32(len(providers)))
  return providers[idx], nil
  \<close>
  The random draw \<open>f\<close> is an argument (a number in \<open>[0, 1)\<close>; the rounding of the 32-bit
  product is not modelled). Indexing a slice at or beyond its length panics.
\<close>

definition get :: "services \<Rightarrow> ServiceName \<Rightarrow> real \<Rightarrow> string outcome" where
  "get s name f =
     (case s name of
        None \<Rightarrow> Failed (NoProviders name)
      | Some providers \<Rightarrow>
          (let idx = nat \<lfloor>f * real (length providers)\<rfloor>
           in if idx < length providers then Returned (providers ! idx) else Panicked))"

text \<open>The package-level \<^verbatim>\<open>prov\<close> starts with an empty map.\<close>

definition prov :: services where
  "prov = Map.empty"

text \<open>A sequence of patches arriving at \<^verbatim>\<open>serviceUpdateHandler\<close>, applied one after the other.\<close>

fun Updates :: "services \<Rightarrow> patch list \<Rightarrow> services" where
  "Updates s [] = s"
| "Updates s (pat # pats) = Updates (Update s pat) pats"

subsection \<open>The cache as the specification words it\<close>

text \<open>
  "For each Added entry, append URL to the list keyed by Name (create the key if absent);
  for each Removed entry, delete the first exact-match URL from the list keyed by Name if
  present."
\<close>

definition Apply_added :: "patchEntry \<Rightarrow> services \<Rightarrow> services" where
  "Apply_added e s =
     (case s (Name e) of
        None \<Rightarrow> s(Name e \<mapsto> [URL e])
      | Some us \<Rightarrow> s(Name e \<mapsto> us @ [URL e]))"

definition Apply_removed :: "patchEntry \<Rightarrow> services \<Rightarrow> services" where
  "Apply_removed e s =
     (case s (Name e) of
        None \<Rightarrow> s
      | Some us \<Rightarrow> if URL e \<in> set us then s(Name e \<mapsto> remove1 (URL e) us) else s)"

definition Apply_spec :: "services \<Rightarrow> patch \<Rightarrow> services" where
  "Apply_spec s p = fold Apply_removed (Removed p) (fold Apply_added (Added p) s)"

section \<open>The directory (registry/service.go)\<close>

text \<open>
  What \<^verbatim>\<open>http.Post\<close> gives back is decided outside the program: either a transport error
  (no response at all), or a response with its status code. The environment is a function
  from the destination and the payload to that reply.
\<close>

datatype reply = NetError string | Status nat

type_synonym post = "string \<Rightarrow> patch \<Rightarrow> reply"

text \<open>
  \<^verbatim>\<open>sendPatch\<close>:
  \<^verbatim>\<open>
  d, err := json.Marshal(p)
  if err != nil { return err }
  _, err = http.Post(url, "application/json", bytes.NewBuffer(d))
  if err != nil { return err }
  return nil
  \<close>
  Marshalling a patch (two slices of pairs of strings) does not fail. The response is
  thrown away, so \<^verbatim>\<open>sendPatch\<close> returns an error for a transport error only, and nil for a
  response of any status.
\<close>

definition sendPatch :: "post \<Rightarrow> patch \<Rightarrow> string \<Rightarrow> err option" where
  "sendPatch post p url =
     (case post url p of
        NetError e \<Rightarrow> Some (PostError e)
      | Status code \<Rightarrow> None)"

text \<open>One call of \<^verbatim>\<open>sendPatch\<close>: to whom, what, and the error it returned.\<close>

record delivery =
  receiver :: Registration
  payload :: patch
  failure :: "err option"

text \<open>The literal \<^verbatim>\<open>patchEntry{Name: x.ServiceName, URL: x.ServiceURL}\<close>.\<close>

definition entry_of :: "Registration \<Rightarrow> patchEntry" where
  "entry_of x = \<lparr>Name = ServiceName x, URL = ServiceURL x\<rparr>"

text \<open>
  The body of the goroutine that \<^verbatim>\<open>notify\<close> starts for one registration, as the list of
  the \<^verbatim>\<open>sendPatch\<close> calls it makes:
  \<^verbatim>\<open>
  for _, reqService := range reg.RequireServices {
      p := patch{Added: []patchEntry{}, Removed: []patchEntry{}}
      sendUpdate := false
      for _, added := range fullPatch.Added {
          if added.Name == reqService { p.Added = append(p.Added, added); sendUpdate = true }
      }
      for _, removed := range fullPatch.Removed {
          if removed.Name == reqService { p.Removed = append(p.Removed, removed); sendUpdate = true }
      }
      if sendUpdate {
          err := r.sendPatch(p, reg.ServiceUpdateURL)
          if err != nil { log.Println(err); return }
      }
  }
  \<close>
\<close>

fun notify_reg :: "post \<Rightarrow> patch \<Rightarrow> Registration \<Rightarrow> ServiceName list \<Rightarrow> delivery list" where
  "notify_reg post fullPatch reg [] = []"
| "notify_reg post fullPatch reg (reqService # rest) =
     (let p = \<lparr>Added = filter (\<lambda>added. Name added = reqService) (Added fullPatch),
               Removed = filter (\<lambda>removed. Name removed = reqService) (Removed fullPatch)\<rparr>;
          sendUpdate = (list_ex (\<lambda>added. Name added = reqService) (Added fullPatch)
                        \<or> list_ex (\<lambda>removed. Name removed = reqService) (Removed fullPatch))
      in if sendUpdate
         then (case sendPatch post p (ServiceUpdateURL reg) of
                 Some e \<Rightarrow> [\<lparr>receiver = reg, payload = p, failure = Some e\<rparr>]
               | None \<Rightarrow> \<lparr>receiver = reg, payload = p, failure = None\<rparr>
                         # notify_reg post fullPatch reg rest)
         else notify_reg post fullPatch reg rest)"

text \<open>
  \<^verbatim>\<open>notify\<close> starts one goroutine per registration of the list. The goroutines run
  independently; the model lists their calls grouped by registration, in the order of the
  list, and nothing below depends on that order.
\<close>

definition notify :: "post \<Rightarrow> patch \<Rightarrow> Registration list \<Rightarrow> delivery list" where
  "notify post fullPatch regs =
     concat (map (\<lambda>reg. notify_reg post fullPatch reg (RequireServices reg)) regs)"

text \<open>
  \<^verbatim>\<open>sendRequireServices\<close>: the inner loop over \<^verbatim>\<open>reg.RequireServices\<close> for one registered
  service, the outer loop over \<^verbatim>\<open>r.registrations\<close>, and the one synchronous
  \<^verbatim>\<open>sendPatch\<close>.
\<close>

fun require_matches :: "Registration \<Rightarrow> ServiceName list \<Rightarrow> patchEntry list" where
  "require_matches serviceReg [] = []"
| "require_matches serviceReg (reqService # rest) =
     (if ServiceName serviceReg = reqService then [entry_of serviceReg] else [])
     @ require_matches serviceReg rest"

fun required_entries :: "Registration list \<Rightarrow> ServiceName list \<Rightarrow> patchEntry list" where
  "required_entries [] reqs = []"
| "required_entries (serviceReg # regs) reqs =
     require_matches serviceReg reqs @ required_entries regs reqs"

definition sendRequireServices :: "post \<Rightarrow> Registration list \<Rightarrow> Registration \<Rightarrow> delivery" where
  "sendRequireServices post regs reg =
     (let p = \<lparr>Added = required_entries regs (RequireServices reg), Removed = []\<rparr>
      in \<lparr>receiver = reg, payload = p, failure = sendPatch post p (ServiceUpdateURL reg)\<rparr>)"

text \<open>
  What a directory operation leaves behind: the error it returns, the registration list,
  and the calls of \<^verbatim>\<open>sendPatch\<close> made by the goroutines of \<^verbatim>\<open>notify\<close>.
\<close>

record response =
  error :: "err option"
  registrations :: "Registration list"
  fanout :: "delivery list"

record add_response = response +
  initial_sync :: delivery

text \<open>
  \<^verbatim>\<open>registry.add\<close>:
  \<^verbatim>\<open>
  r.registrations = append(r.registrations, reg)
  err := r.sendRequireServices(reg)
  r.notify(patch{Added: []patchEntry{{Name: reg.ServiceName, URL: reg.ServiceURL}}})
  return err
  \<close>
\<close>

definition add :: "post \<Rightarrow> Registration \<Rightarrow> Registration list \<Rightarrow> add_response" where
  "add post reg regs =
     (let regs' = regs @ [reg];
          sync = sendRequireServices post regs' reg;
          sent = notify post \<lparr>Added = [entry_of reg], Removed = []\<rparr> regs'
      in \<lparr>error = failure sync, registrations = regs', fanout = sent, initial_sync = sync\<rparr>)"

text \<open>
  \<^verbatim>\<open>registry.remove\<close>, from index \<open>i\<close> on:
  \<^verbatim>\<open>
  for i := range reg.registrations {
      if reg.registrations[i].ServiceURL == url {
          r.notify(patch{Removed: []patchEntry{{Name: r.registrations[i].ServiceName,
                                                URL: r.registrations[i].ServiceURL}}})
          reg.registrations = append(reg.registrations[:i], r.registrations[:i+1]...)
          return nil
      }
  }
  return fmt.Errorf("service at url %s not found", url)
  \<close>
  The only caller is \<^verbatim>\<open>reg.remove(url)\<close> in \<^verbatim>\<open>ServeHTTP\<close>, so the receiver \<^verbatim>\<open>r\<close> is the
  package-level \<^verbatim>\<open>reg\<close> and both names read the same slice. \<^verbatim>\<open>append(s[:i], s[:i+1]...)\<close>
  is the first \<open>i\<close> elements of \<open>s\<close> followed by its first \<open>i + 1\<close> elements, whether or
  not the capacity forces a new array (the elements are moved as \<^verbatim>\<open>memmove\<close> moves them).
\<close>

function remove_from :: "post \<Rightarrow> string \<Rightarrow> Registration list \<Rightarrow> nat \<Rightarrow> response" where
  "remove_from post url regs i =
     (if i < length regs
      then (if ServiceURL (regs ! i) = url
            then \<lparr>error = None,
                  registrations = take i regs @ take (Suc i) regs,
                  fanout = notify post \<lparr>Added = [], Removed = [entry_of (regs ! i)]\<rparr> regs\<rparr>
            else remove_from post url regs (Suc i))
      else \<lparr>error = Some (ServiceNotFound url), registrations = regs, fanout = []\<rparr>)"
  by pat_completeness auto
termination
  by (relation "measure (\<lambda>(post, url, regs, i). length regs - i)") auto

declare remove_from.simps [simp del]

definition remove :: "post \<Rightarrow> string \<Rightarrow> Registration list \<Rightarrow> response" where
  "remove post url regs = remove_from post url regs 0"

text \<open>
  \<^verbatim>\<open>RegistryService.ServeHTTP\<close>. The request is given after decoding: a POST with the
  decoded Registration (nothing when \<^verbatim>\<open>dec.Decode\<close> fails), a DELETE with the body read
  (nothing when \<^verbatim>\<open>io.ReadAll\<close> fails), or any other method. The result is the status
  code (200 when the handler never calls \<^verbatim>\<open>WriteHeader\<close>) and the registration list.
\<close>

datatype request = POST "Registration option" | DELETE "string option" | OTHER

fun ServeHTTP :: "post \<Rightarrow> request \<Rightarrow> Registration list \<Rightarrow> nat \<times> Registration list" where
  "ServeHTTP post (POST None) regs = (400, regs)"
| "ServeHTTP post (POST (Some r)) regs =
     (let res = add post r regs
      in (if error res \<noteq> None then 400 else 200, registrations res))"
| "ServeHTTP post (DELETE None) regs = (500, regs)"
| "ServeHTTP post (DELETE (Some url)) regs =
     (let res = remove post url regs
      in (if error res \<noteq> None then 500 else 200, registrations res))"
| "ServeHTTP post OTHER regs = (405, regs)"

text \<open>The directory after a sequence of requests, starting from a given list.\<close>

datatype op = Add Registration | Remove string

fun apply_op :: "post \<Rightarrow> op \<Rightarrow> Registration list \<Rightarrow> Registration list" where
  "apply_op post (Add r) regs = registrations (add post r regs)"
| "apply_op post (Remove url) regs = registrations (remove post url regs)"

fun run_ops :: "post \<Rightarrow> op list \<Rightarrow> Registration list \<Rightarrow> Registration list" where
  "run_ops post [] regs = regs"
| "run_ops post (x # xs) regs = run_ops post xs (apply_op post x regs)"

subsection \<open>Sample environments and services\<close>

text \<open>
  A network on which every post is answered 200, one on which one destination cannot be
  reached, and one on which one destination answers 500.
\<close>

definition always_ok :: post where
  "always_ok url p = Status 200"

definition down_at :: "string \<Rightarrow> post" where
  "down_at dead url p = (if url = dead then NetError ''connection refused'' else Status 200)"

definition rejecting_at :: "string \<Rightarrow> post" where
  "rejecting_at bad url p = (if url = bad then Status 500 else Status 200)"

text \<open>
  Registrations in the shape the services of the repository use (the grading service and
  the portal as their \<^verbatim>\<open>main\<close> functions build them), and a second log instance that
  asks to be told about log instances.
\<close>

definition LogService :: ServiceName where
  "LogService = ''LogService''"

definition GradingService :: ServiceName where
  "GradingService = ''GradingService''"

definition PortalService :: ServiceName where
  "PortalService = ''PortalService''"

definition log_reg :: Registration where
  "log_reg = \<lparr>ServiceName = LogService, ServiceURL = ''http://localhost:4000'',
              RequireServices = [], ServiceUpdateURL = ''http://localhost:4000/services''\<rparr>"

definition grading_reg :: Registration where
  "grading_reg = \<lparr>ServiceName = GradingService, ServiceURL = ''http://localhost:6000'',
                  RequireServices = [LogService],
                  ServiceUpdateURL = ''http://localhost:6000/services''\<rparr>"

definition portal_reg :: Registration where
  "portal_reg = \<lparr>ServiceName = PortalService, ServiceURL = ''http://localhost:5000'',
                 RequireServices = [LogService, GradingService],
                 ServiceUpdateURL = ''http://localhost:5000/services''\<rparr>"

definition log_peer :: Registration where
  "log_peer = \<lparr>ServiceName = LogService, ServiceURL = ''http://localhost:4001'',
               RequireServices = [LogService],
               ServiceUpdateURL = ''http://localhost:4001/services''\<rparr>"

text \<open>
  A registration with neither a name nor a URL (what \<^verbatim>\<open>dec.Decode\<close> makes of a JSON body
  that gives only the callback), and a grading instance whose requirement is listed twice.
\<close>

definition blank_reg :: Registration where
  "blank_reg = \<lparr>ServiceName = [], ServiceURL = [], RequireServices = [],
                ServiceUpdateURL = ''http://localhost:7000/services''\<rparr>"

definition twice_reg :: Registration where
  "twice_reg = \<lparr>ServiceName = GradingService, ServiceURL = ''http://localhost:6001'',
                RequireServices = [LogService, LogService],
                ServiceUpdateURL = ''http://localhost:6001/services''\<rparr>"

section \<open>Unfolding the samples\<close>

lemmas sample_defs = log_reg_def grading_reg_def portal_reg_def log_peer_def
  LogService_def GradingService_def PortalService_def entry_of_def

lemmas eval_defs = add_def notify_def sendRequireServices_def sendPatch_def always_ok_def
  down_at_def rejecting_at_def Let_def

section \<open>The provider cache: what Update computes\<close>

lemma scan_urls_from:
  "scan_urls us u i =
     (if u \<in> set (drop i us) then Some (take i us @ remove1 u (drop i us)) else None)"
proof (induction us u i rule: scan_urls.induct)
  case (1 us u i)
  show ?case
  proof (cases "i < length us")
    case False
    then show ?thesis by (simp add: scan_urls.simps)
  next
    case True
    then have d: "drop i us = us ! i # drop (Suc i) us"
      by (simp add: Cons_nth_drop_Suc)
    show ?thesis
    proof (cases "us ! i = u")
      case True
      with \<open>i < length us\<close> d show ?thesis
        by (subst scan_urls.simps) simp
    next
      case False
      with \<open>i < length us\<close> d "1.IH" show ?thesis
        by (subst scan_urls.simps) (simp add: take_Suc_conv_app_nth)
    qed
  qed
qed

lemma scan_urls_remove1:
  "scan_urls us u 0 = (if u \<in> set us then Some (remove1 u us) else None)"
  by (simp add: scan_urls_from)

lemma add_entry_spec: "add_entry e s = Apply_added e s"
  by (auto simp: add_entry_def Apply_added_def slice_at_def split: option.splits)

lemma remove_entry_spec: "remove_entry e s = Apply_removed e s"
  by (simp add: remove_entry_def Apply_removed_def scan_urls_remove1 split: option.splits)

lemma add_entries_fold: "add_entries es s = fold Apply_added es s"
  by (induction es arbitrary: s) (simp_all add: add_entry_spec)

lemma remove_entries_fold: "remove_entries es s = fold Apply_removed es s"
  by (induction es arbitrary: s) (simp_all add: remove_entry_spec)

text \<open>
  C8. For every cache and every patch, \<^verbatim>\<open>Update\<close> handles the Added entries by appending
  each URL to the list kept under its Name (creating the key when it is absent), and then
  the Removed entries by deleting the first occurrence of the URL from the list kept under
  its Name when there is one, and changing nothing when there is none.
\<close>

theorem Update_refines_Apply: "Update s p = Apply_spec s p"
  by (simp add: Update_def Apply_spec_def add_entries_fold remove_entries_fold)

lemma dom_Apply_added: "dom (Apply_added e s) = insert (Name e) (dom s)"
  by (auto simp: Apply_added_def split: option.splits)

lemma dom_Apply_removed: "dom (Apply_removed e s) = dom s"
  by (auto simp: Apply_removed_def split: option.splits if_splits)

lemma dom_add_entries: "dom (add_entries es s) = dom s \<union> Name ` set es"
  by (induction es arbitrary: s) (auto simp: add_entry_spec dom_Apply_added)

lemma dom_remove_entries: "dom (remove_entries es s) = dom s"
  by (induction es arbitrary: s) (auto simp: remove_entry_spec dom_Apply_removed)

lemma dom_Update: "dom (Update s p) = dom s \<union> Name ` set (Added p)"
  by (simp add: Update_def dom_add_entries dom_remove_entries)

lemma dom_Updates: "n \<in> dom s \<Longrightarrow> n \<in> dom (Updates s ps)"
proof (induction ps arbitrary: s)
  case Nil
  then show ?case by simp
next
  case (Cons p ps)
  from Cons.prems have "n \<in> dom (Update s p)" by (simp add: dom_Update)
  then show ?case using Cons.IH by simp
qed

lemma Update_removes_last:
  "s n = Some [u] \<Longrightarrow>
   Update s \<lparr>Added = [], Removed = [\<lparr>Name = n, URL = u\<rparr>]\<rparr> = s(n \<mapsto> [])"
  by (simp add: Update_def remove_entry_spec Apply_removed_def)

text \<open>
  C10. A key that an Added entry has created stays in the cache through every later
  patch; and a Removed entry that deletes the only URL of a name leaves the name mapped to
  the empty list, not absent.
\<close>

theorem created_key_is_never_deleted:
  "(e \<in> set (Added p) \<longrightarrow> Name e \<in> dom (Updates (Update s p) ps))
   \<and> (t n = Some [u] \<longrightarrow>
        Update t \<lparr>Added = [], Removed = [\<lparr>Name = n, URL = u\<rparr>]\<rparr> n = Some [])"
proof (intro conjI impI)
  assume "e \<in> set (Added p)"
  then have "Name e \<in> dom (Update s p)" by (simp add: dom_Update)
  then show "Name e \<in> dom (Updates (Update s p) ps)" by (rule dom_Updates)
next
  assume "t n = Some [u]"
  then show "Update t \<lparr>Added = [], Removed = [\<lparr>Name = n, URL = u\<rparr>]\<rparr> n = Some []"
    by (simp add: Update_removes_last)
qed

theorem created_key_is_never_deleted_witness:
  "\<lparr>Name = LogService, URL = ''http://localhost:4000''\<rparr>
     \<in> set (Added \<lparr>Added = [\<lparr>Name = LogService, URL = ''http://localhost:4000''\<rparr>], Removed = []\<rparr>)
   \<and> LogService \<in> dom (Updates
        (Update prov \<lparr>Added = [\<lparr>Name = LogService, URL = ''http://localhost:4000''\<rparr>], Removed = []\<rparr>)
        [\<lparr>Added = [], Removed = [\<lparr>Name = LogService, URL = ''http://localhost:4000''\<rparr>]\<rparr>])
   \<and> (prov(LogService \<mapsto> [''http://localhost:4000''])) LogService = Some [''http://localhost:4000'']
   \<and> Update (prov(LogService \<mapsto> [''http://localhost:4000'']))
        \<lparr>Added = [], Removed = [\<lparr>Name = LogService, URL = ''http://localhost:4000''\<rparr>]\<rparr> LogService
      = Some []"
  using created_key_is_never_deleted
    [where e = "\<lparr>Name = LogService, URL = ''http://localhost:4000''\<rparr>"
       and p = "\<lparr>Added = [\<lparr>Name = LogService, URL = ''http://localhost:4000''\<rparr>], Removed = []\<rparr>"
       and s = prov
       and ps = "[\<lparr>Added = [], Removed = [\<lparr>Name = LogService, URL = ''http://localhost:4000''\<rparr>]\<rparr>]"
       and t = "prov(LogService \<mapsto> [''http://localhost:4000''])"
       and n = LogService and u = "''http://localhost:4000''"]
  by simp

text \<open>
  C2. From the empty cache, the patch that adds \<open>u1\<close> for \<open>x\<close> followed by the patch that
  removes it leaves \<open>x\<close> mapped to the empty list; \<^verbatim>\<open>get\<close> then finds the key, draws index
  0 into a slice of length 0, and panics, whatever the random draw.
\<close>

theorem get_after_add_remove_panics:
  "Update (Update prov \<lparr>Added = [\<lparr>Name = x, URL = u1\<rparr>], Removed = []\<rparr>)
          \<lparr>Added = [], Removed = [\<lparr>Name = x, URL = u1\<rparr>]\<rparr> x = Some []
   \<and> get (Update (Update prov \<lparr>Added = [\<lparr>Name = x, URL = u1\<rparr>], Removed = []\<rparr>)
          \<lparr>Added = [], Removed = [\<lparr>Name = x, URL = u1\<rparr>]\<rparr>) x f = Panicked"
  by (simp add: Update_def prov_def add_entry_spec Apply_added_def remove_entry_spec
      Apply_removed_def get_def)

section \<open>The directory: remove\<close>

lemma remove_from_absent:
  "url \<notin> ServiceURL ` set regs \<Longrightarrow>
   remove_from post url regs i =
     \<lparr>error = Some (ServiceNotFound url), registrations = regs, fanout = []\<rparr>"
proof (induction post url regs i rule: remove_from.induct)
  case (1 post url regs i)
  show ?case
  proof (cases "i < length regs")
    case False
    then show ?thesis by (subst remove_from.simps) simp
  next
    case True
    then have "regs ! i \<in> set regs" by simp
    with "1.prems" have ne: "ServiceURL (regs ! i) \<noteq> url" by auto
    with True "1.IH" "1.prems" show ?thesis
      by (subst remove_from.simps) simp
  qed
qed

lemma remove_from_first:
  "i \<le> j \<Longrightarrow> j < length regs \<Longrightarrow> ServiceURL (regs ! j) = url \<Longrightarrow>
   (\<And>k. i \<le> k \<Longrightarrow> k < j \<Longrightarrow> ServiceURL (regs ! k) \<noteq> url) \<Longrightarrow>
   remove_from post url regs i =
     \<lparr>error = None, registrations = take j regs @ take (Suc j) regs,
      fanout = notify post \<lparr>Added = [], Removed = [entry_of (regs ! j)]\<rparr> regs\<rparr>"
proof (induction post url regs i rule: remove_from.induct)
  case (1 post url regs i)
  from "1.prems" have il: "i < length regs" by simp
  show ?case
  proof (cases "i = j")
    case True
    with "1.prems" il show ?thesis by (subst remove_from.simps) simp
  next
    case False
    with "1.prems" have lt: "i < j" by simp
    with "1.prems" have ne: "ServiceURL (regs ! i) \<noteq> url" by simp
    have "remove_from post url regs (Suc i) =
      \<lparr>error = None, registrations = take j regs @ take (Suc j) regs,
       fanout = notify post \<lparr>Added = [], Removed = [entry_of (regs ! j)]\<rparr> regs\<rparr>"
      using il ne lt "1.prems" by (intro "1.IH") simp_all
    with il ne show ?thesis by (subst remove_from.simps) simp
  qed
qed

text \<open>
  The list is \<open>before\<close>, then the first registration with the URL, then \<open>after\<close>: remove
  notifies about that registration and stores \<open>before\<close> twice, followed by it.
\<close>

lemma remove_found:
  assumes "ServiceURL subj \<notin> ServiceURL ` set before"
  shows "remove post (ServiceURL subj) (before @ subj # after) =
     \<lparr>error = None, registrations = before @ before @ [subj],
      fanout = notify post \<lparr>Added = [], Removed = [entry_of subj]\<rparr> (before @ subj # after)\<rparr>"
proof -
  let ?regs = "before @ subj # after"
  have a: "length before < length ?regs" by simp
  have b: "ServiceURL (?regs ! length before) = ServiceURL subj" by simp
  have c: "\<And>k. k < length before \<Longrightarrow> ServiceURL (?regs ! k) \<noteq> ServiceURL subj"
  proof -
    fix k assume k: "k < length before"
    then have r: "?regs ! k = before ! k" by (simp add: nth_append)
    from k have "ServiceURL (before ! k) \<in> ServiceURL ` set before" by simp
    with assms have "ServiceURL (before ! k) \<noteq> ServiceURL subj" by metis
    with r show "ServiceURL (?regs ! k) \<noteq> ServiceURL subj" by simp
  qed
  have "remove_from post (ServiceURL subj) ?regs 0 =
     \<lparr>error = None, registrations = take (length before) ?regs @ take (Suc (length before)) ?regs,
      fanout = notify post \<lparr>Added = [], Removed = [entry_of (?regs ! length before)]\<rparr> ?regs\<rparr>"
    using a b c by (intro remove_from_first) simp_all
  then show ?thesis by (simp add: remove_def)
qed

text \<open>
  C6. When no registration of the list has the URL, \<^verbatim>\<open>remove\<close> returns the not-found
  error, leaves the list as it was, and notifies nobody.
\<close>

theorem remove_unknown_url:
  "url \<notin> ServiceURL ` set regs \<Longrightarrow>
   error (remove post url regs) = Some (ServiceNotFound url)
   \<and> registrations (remove post url regs) = regs
   \<and> fanout (remove post url regs) = []"
  by (simp add: remove_def remove_from_absent)

theorem remove_unknown_url_witness:
  "''http://localhost:9999'' \<notin> ServiceURL ` set [log_reg, grading_reg]
   \<and> error (remove always_ok ''http://localhost:9999'' [log_reg, grading_reg])
       = Some (ServiceNotFound ''http://localhost:9999'')
   \<and> registrations (remove always_ok ''http://localhost:9999'' [log_reg, grading_reg])
       = [log_reg, grading_reg]
   \<and> fanout (remove always_ok ''http://localhost:9999'' [log_reg, grading_reg]) = []"
proof -
  have h: "''http://localhost:9999'' \<notin> ServiceURL ` set [log_reg, grading_reg]"
    by (simp add: log_reg_def grading_reg_def)
  show ?thesis using h remove_unknown_url [OF h, of always_ok] by simp
qed

text \<open>
  C1. With the log service, the grading service and the portal registered, removing the
  grading service's URL returns no error, but the list afterwards is the log service
  twice followed by the grading service: the entry to remove is still there, the portal is
  gone, and the log service is duplicated. With only the log service registered, removing
  it leaves it in the list.
\<close>

theorem remove_keeps_the_entry_and_drops_the_rest:
  "remove always_ok ''http://localhost:6000'' [log_reg, grading_reg, portal_reg]
     = \<lparr>error = None, registrations = [log_reg, log_reg, grading_reg],
        fanout = [\<lparr>receiver = portal_reg,
                   payload = \<lparr>Added = [], Removed = [\<lparr>Name = ''GradingService'', URL = ''http://localhost:6000''\<rparr>]\<rparr>,
                   failure = None\<rparr>]\<rparr>
   \<and> registrations (remove always_ok ''http://localhost:4000'' [log_reg]) = [log_reg]"
proof -
  have h: "ServiceURL grading_reg \<notin> ServiceURL ` set [log_reg]"
    by (simp add: sample_defs)
  have u: "ServiceURL grading_reg = ''http://localhost:6000''"
    by (simp add: grading_reg_def)
  have "remove always_ok (ServiceURL grading_reg) ([log_reg] @ grading_reg # [portal_reg])
     = \<lparr>error = None, registrations = [log_reg] @ [log_reg] @ [grading_reg],
        fanout = notify always_ok \<lparr>Added = [], Removed = [entry_of grading_reg]\<rparr>
          ([log_reg] @ grading_reg # [portal_reg])\<rparr>"
    by (rule remove_found [OF h])
  moreover have "notify always_ok \<lparr>Added = [], Removed = [entry_of grading_reg]\<rparr>
          ([log_reg] @ grading_reg # [portal_reg])
      = [\<lparr>receiver = portal_reg,
                   payload = \<lparr>Added = [], Removed = [\<lparr>Name = ''GradingService'', URL = ''http://localhost:6000''\<rparr>]\<rparr>,
                   failure = None\<rparr>]"
    by (simp add: eval_defs sample_defs)
  ultimately have a: "remove always_ok ''http://localhost:6000'' [log_reg, grading_reg, portal_reg]
     = \<lparr>error = None, registrations = [log_reg, log_reg, grading_reg],
        fanout = [\<lparr>receiver = portal_reg,
                   payload = \<lparr>Added = [], Removed = [\<lparr>Name = ''GradingService'', URL = ''http://localhost:6000''\<rparr>]\<rparr>,
                   failure = None\<rparr>]\<rparr>"
    by (simp add: u)
  have h2: "ServiceURL log_reg \<notin> ServiceURL ` set []" by simp
  have "registrations (remove always_ok (ServiceURL log_reg) ([] @ log_reg # [])) = [] @ [] @ [log_reg]"
    by (simp only: remove_found [OF h2]) simp
  then have b: "registrations (remove always_ok ''http://localhost:4000'' [log_reg]) = [log_reg]"
    by (simp add: log_reg_def)
  from a b show ?thesis by simp
qed

section \<open>The directory: notify\<close>

lemma notify_reg_receiver:
  "d \<in> set (notify_reg post fp reg reqs) \<Longrightarrow> receiver d = reg"
  by (induction reqs) (auto simp: Let_def split: if_splits option.splits)

text \<open>A patch that carries one entry, as Added or as Removed.\<close>

lemma notify_reg_single_payload:
  assumes "fp = \<lparr>Added = [e], Removed = []\<rparr> \<or> fp = \<lparr>Added = [], Removed = [e]\<rparr>"
  shows "d \<in> set (notify_reg post fp reg reqs) \<Longrightarrow> payload d = fp"
  using assms by (induction reqs) (auto simp: Let_def split: if_splits option.splits)

lemma notify_reg_single_empty:
  assumes "fp = \<lparr>Added = [e], Removed = []\<rparr> \<or> fp = \<lparr>Added = [], Removed = [e]\<rparr>"
  shows "(notify_reg post fp reg reqs = []) = (Name e \<notin> set reqs)"
  using assms by (induction reqs) (auto simp: Let_def split: if_splits option.splits)

lemma notify_receivers:
  assumes "fp = \<lparr>Added = [e], Removed = []\<rparr> \<or> fp = \<lparr>Added = [], Removed = [e]\<rparr>"
  shows "receiver ` set (notify post fp regs)
    = set (filter (\<lambda>R. Name e \<in> set (RequireServices R)) regs)"
proof (intro set_eqI iffI)
  fix R assume "R \<in> receiver ` set (notify post fp regs)"
  then obtain d reg where reg: "reg \<in> set regs"
    and d: "d \<in> set (notify_reg post fp reg (RequireServices reg))" and R: "R = receiver d"
    by (auto simp: notify_def)
  from d have "receiver d = reg" by (rule notify_reg_receiver)
  moreover from d have "notify_reg post fp reg (RequireServices reg) \<noteq> []" by auto
  then have "Name e \<in> set (RequireServices reg)"
    using notify_reg_single_empty [OF assms] by simp
  ultimately show "R \<in> set (filter (\<lambda>R. Name e \<in> set (RequireServices R)) regs)"
    using reg R by simp
next
  fix R assume "R \<in> set (filter (\<lambda>R. Name e \<in> set (RequireServices R)) regs)"
  then have reg: "R \<in> set regs" and "Name e \<in> set (RequireServices R)" by simp_all
  then have "notify_reg post fp R (RequireServices R) \<noteq> []"
    using notify_reg_single_empty [OF assms] by simp
  then obtain d where d: "d \<in> set (notify_reg post fp R (RequireServices R))"
    by (cases "notify_reg post fp R (RequireServices R)") auto
  then have "receiver d = R" by (rule notify_reg_receiver)
  moreover from d reg have "d \<in> set (notify post fp regs)" by (auto simp: notify_def)
  ultimately show "R \<in> receiver ` set (notify post fp regs)" by force
qed

lemma notify_payloads:
  assumes "fp = \<lparr>Added = [e], Removed = []\<rparr> \<or> fp = \<lparr>Added = [], Removed = [e]\<rparr>"
  shows "d \<in> set (notify post fp regs) \<Longrightarrow> payload d = fp"
  using notify_reg_single_payload [OF assms] by (auto simp: notify_def)

lemma fanout_add:
  "fanout (add post reg regs) = notify post \<lparr>Added = [entry_of reg], Removed = []\<rparr> (regs @ [reg])"
  by (simp add: add_def Let_def)

lemma Name_entry_of: "Name (entry_of R) = ServiceName R"
  by (simp add: entry_of_def)

text \<open>
  C4. For an Add of \<open>reg\<close>, the registrations that \<^verbatim>\<open>notify\<close> sends a patch to are those
  of the list after the append, \<open>reg\<close> itself included, that list \<open>reg\<close>'s ServiceName
  among their RequireServices, and every patch sent is the Added-only patch with the one
  entry of \<open>reg\<close>. For a Remove that finds \<open>subj\<close>, they are those of the list before the
  removal, \<open>subj\<close> itself included, that list \<open>subj\<close>'s ServiceName, and every patch sent
  is the Removed-only patch with the one entry of \<open>subj\<close>.
\<close>

theorem fanout_targets:
  "receiver ` set (fanout (add post reg regs))
     = set (filter (\<lambda>R. ServiceName reg \<in> set (RequireServices R)) (regs @ [reg]))
   \<and> (\<forall>d \<in> set (fanout (add post reg regs)).
        payload d = \<lparr>Added = [entry_of reg], Removed = []\<rparr>)
   \<and> (ServiceURL subj \<notin> ServiceURL ` set before \<longrightarrow>
        receiver ` set (fanout (remove post (ServiceURL subj) (before @ subj # after)))
          = set (filter (\<lambda>R. ServiceName subj \<in> set (RequireServices R)) (before @ subj # after))
        \<and> (\<forall>d \<in> set (fanout (remove post (ServiceURL subj) (before @ subj # after))).
             payload d = \<lparr>Added = [], Removed = [entry_of subj]\<rparr>))"
proof (intro conjI impI ballI)
  show "receiver ` set (fanout (add post reg regs))
     = set (filter (\<lambda>R. ServiceName reg \<in> set (RequireServices R)) (regs @ [reg]))"
    using notify_receivers [of "\<lparr>Added = [entry_of reg], Removed = []\<rparr>" "entry_of reg" post "regs @ [reg]"]
    by (simp only: fanout_add Name_entry_of) simp
next
  fix d assume "d \<in> set (fanout (add post reg regs))"
  then show "payload d = \<lparr>Added = [entry_of reg], Removed = []\<rparr>"
    using notify_payloads [of "\<lparr>Added = [entry_of reg], Removed = []\<rparr>" "entry_of reg" d post "regs @ [reg]"]
    by (simp add: fanout_add)
next
  assume h: "ServiceURL subj \<notin> ServiceURL ` set before"
  show "receiver ` set (fanout (remove post (ServiceURL subj) (before @ subj # after)))
          = set (filter (\<lambda>R. ServiceName subj \<in> set (RequireServices R)) (before @ subj # after))"
    using notify_receivers [of "\<lparr>Added = [], Removed = [entry_of subj]\<rparr>" "entry_of subj" post
        "before @ subj # after"]
    by (simp only: remove_found [OF h] Name_entry_of) simp
next
  fix d
  assume h: "ServiceURL subj \<notin> ServiceURL ` set before"
    and "d \<in> set (fanout (remove post (ServiceURL subj) (before @ subj # after)))"
  then show "payload d = \<lparr>Added = [], Removed = [entry_of subj]\<rparr>"
    using notify_payloads [of "\<lparr>Added = [], Removed = [entry_of subj]\<rparr>" "entry_of subj" d post
        "before @ subj # after"]
    by (simp add: remove_found [OF h])
qed

theorem fanout_targets_witness:
  "receiver ` set (fanout (add always_ok log_peer [grading_reg])) = {grading_reg, log_peer}
   \<and> payload (hd (fanout (add always_ok log_peer [grading_reg])))
       = \<lparr>Added = [\<lparr>Name = ''LogService'', URL = ''http://localhost:4001''\<rparr>], Removed = []\<rparr>
   \<and> ServiceURL log_peer \<notin> ServiceURL ` set [grading_reg]
   \<and> receiver ` set (fanout (remove always_ok (ServiceURL log_peer) ([grading_reg] @ log_peer # [portal_reg])))
       = {grading_reg, log_peer, portal_reg}
   \<and> payload (hd (fanout (remove always_ok (ServiceURL log_peer) ([grading_reg] @ log_peer # [portal_reg]))))
       = \<lparr>Added = [], Removed = [\<lparr>Name = ''LogService'', URL = ''http://localhost:4001''\<rparr>]\<rparr>"
proof -
  have h: "ServiceURL log_peer \<notin> ServiceURL ` set [grading_reg]"
    by (simp add: sample_defs)
  have n1: "fanout (add always_ok log_peer [grading_reg]) \<noteq> []"
    by (simp add: eval_defs sample_defs)
  have "fanout (remove always_ok (ServiceURL log_peer) ([grading_reg] @ log_peer # [portal_reg]))
      = notify always_ok \<lparr>Added = [], Removed = [entry_of log_peer]\<rparr>
          ([grading_reg] @ log_peer # [portal_reg])"
    by (simp only: remove_found [OF h]) simp
  then have n2: "fanout (remove always_ok (ServiceURL log_peer) ([grading_reg] @ log_peer # [portal_reg])) \<noteq> []"
    by (simp add: eval_defs sample_defs)
  from fanout_targets [of always_ok log_peer "[grading_reg]" log_peer "[grading_reg]" "[portal_reg]"] h
  have t: "receiver ` set (fanout (add always_ok log_peer [grading_reg]))
     = set (filter (\<lambda>R. ServiceName log_peer \<in> set (RequireServices R)) ([grading_reg] @ [log_peer]))"
    and p1: "\<forall>d \<in> set (fanout (add always_ok log_peer [grading_reg])).
        payload d = \<lparr>Added = [entry_of log_peer], Removed = []\<rparr>"
    and r: "receiver ` set (fanout (remove always_ok (ServiceURL log_peer) ([grading_reg] @ log_peer # [portal_reg])))
          = set (filter (\<lambda>R. ServiceName log_peer \<in> set (RequireServices R)) ([grading_reg] @ log_peer # [portal_reg]))"
    and p2: "\<forall>d \<in> set (fanout (remove always_ok (ServiceURL log_peer) ([grading_reg] @ log_peer # [portal_reg]))).
             payload d = \<lparr>Added = [], Removed = [entry_of log_peer]\<rparr>"
    by blast+
  from t have t': "receiver ` set (fanout (add always_ok log_peer [grading_reg])) = {grading_reg, log_peer}"
    by (simp add: sample_defs)
  from r have r': "receiver ` set (fanout (remove always_ok (ServiceURL log_peer) ([grading_reg] @ log_peer # [portal_reg]))) = {grading_reg, log_peer, portal_reg}"
    by (simp add: sample_defs)
  from p1 n1 have q1: "payload (hd (fanout (add always_ok log_peer [grading_reg])))
       = \<lparr>Added = [entry_of log_peer], Removed = []\<rparr>"
    by simp
  from p2 n2 have q2: "payload (hd (fanout (remove always_ok (ServiceURL log_peer) ([grading_reg] @ log_peer # [portal_reg]))))
       = \<lparr>Added = [], Removed = [entry_of log_peer]\<rparr>"
    by simp
  from t' r' q1 q2 h show ?thesis by (simp add: sample_defs)
qed

text \<open>
  The claim as written excludes the subject of the event from the targets. A log instance
  that requires the log service, added to an empty directory, is sent the patch about
  itself.
\<close>

theorem fanout_reaches_subject:
  "fanout (add always_ok log_peer [])
     = [\<lparr>receiver = log_peer,
         payload = \<lparr>Added = [\<lparr>Name = ''LogService'', URL = ''http://localhost:4001''\<rparr>], Removed = []\<rparr>,
         failure = None\<rparr>]"
  by (simp add: eval_defs sample_defs)

section \<open>The directory: add\<close>

lemma set_require_matches:
  "set (require_matches R reqs) = (if ServiceName R \<in> set reqs then {entry_of R} else {})"
  by (induction reqs) auto

lemma require_matches_distinct:
  "distinct reqs \<Longrightarrow>
   require_matches R reqs = (if ServiceName R \<in> set reqs then [entry_of R] else [])"
  by (induction reqs) auto

lemma set_required_entries:
  "set (required_entries regs reqs)
     = entry_of ` set (filter (\<lambda>R. ServiceName R \<in> set reqs) regs)"
  by (induction regs) (auto simp: set_require_matches)

lemma required_entries_distinct:
  "distinct reqs \<Longrightarrow>
   required_entries regs reqs = map entry_of (filter (\<lambda>R. ServiceName R \<in> set reqs) regs)"
  by (induction regs) (simp_all add: require_matches_distinct)

lemma initial_sync_add:
  "initial_sync (add post reg regs)
     = \<lparr>receiver = reg,
        payload = \<lparr>Added = required_entries (regs @ [reg]) (RequireServices reg), Removed = []\<rparr>,
        failure = sendPatch post
          \<lparr>Added = required_entries (regs @ [reg]) (RequireServices reg), Removed = []\<rparr>
          (ServiceUpdateURL reg)\<rparr>"
  by (simp add: add_def sendRequireServices_def Let_def)

lemma error_add:
  "error (add post reg regs)
     = sendPatch post
         \<lparr>Added = required_entries (regs @ [reg]) (RequireServices reg), Removed = []\<rparr>
         (ServiceUpdateURL reg)"
  by (simp add: add_def sendRequireServices_def Let_def)

lemma registrations_add: "registrations (add post reg regs) = regs @ [reg]"
  by (simp add: add_def Let_def)

text \<open>
  C7. The initial-sync patch goes to \<open>reg\<close>, has no Removed entries, and the set of its
  Added entries is the set of the entries of the registrations of the list after the
  append (the earlier ones and \<open>reg\<close> itself) whose ServiceName is among \<open>reg\<close>'s
  RequireServices. When no name is repeated in RequireServices, the Added entries are those
  entries once each, in the order of the list. In particular, when \<open>reg\<close> requires
  exactly \<open>B\<close>, is not itself a \<open>B\<close>, and \<open>b\<close> is the one \<open>B\<close> registered before, the
  patch is the Added-only patch with the one entry of \<open>b\<close>.
\<close>

theorem initial_sync_patch:
  "receiver (initial_sync (add post reg regs)) = reg
   \<and> Removed (payload (initial_sync (add post reg regs))) = []
   \<and> set (Added (payload (initial_sync (add post reg regs))))
       = entry_of ` set (filter (\<lambda>R. ServiceName R \<in> set (RequireServices reg)) (regs @ [reg]))
   \<and> (distinct (RequireServices reg) \<longrightarrow>
        Added (payload (initial_sync (add post reg regs)))
          = map entry_of (filter (\<lambda>R. ServiceName R \<in> set (RequireServices reg)) (regs @ [reg])))
   \<and> (RequireServices reg = [B] \<and> ServiceName reg \<noteq> B
        \<and> filter (\<lambda>R. ServiceName R = B) regs = [b] \<longrightarrow>
        payload (initial_sync (add post reg regs))
          = \<lparr>Added = [\<lparr>Name = B, URL = ServiceURL b\<rparr>], Removed = []\<rparr>)"
proof (intro conjI impI)
  show "receiver (initial_sync (add post reg regs)) = reg"
    by (simp add: initial_sync_add)
  show "Removed (payload (initial_sync (add post reg regs))) = []"
    by (simp add: initial_sync_add)
  have "Added (payload (initial_sync (add post reg regs)))
      = required_entries (regs @ [reg]) (RequireServices reg)"
    by (simp add: initial_sync_add)
  then show "set (Added (payload (initial_sync (add post reg regs))))
       = entry_of ` set (filter (\<lambda>R. ServiceName R \<in> set (RequireServices reg)) (regs @ [reg]))"
    by (simp only: set_required_entries)
next
  assume "distinct (RequireServices reg)"
  then show "Added (payload (initial_sync (add post reg regs)))
          = map entry_of (filter (\<lambda>R. ServiceName R \<in> set (RequireServices reg)) (regs @ [reg]))"
    by (simp add: initial_sync_add required_entries_distinct)
next
  assume a: "RequireServices reg = [B] \<and> ServiceName reg \<noteq> B
        \<and> filter (\<lambda>R. ServiceName R = B) regs = [b]"
  then have f: "filter (\<lambda>R. ServiceName R = B) regs = [b]" by simp
  then have "b \<in> set (filter (\<lambda>R. ServiceName R = B) regs)" by simp
  then have nb: "ServiceName b = B" by simp
  have "required_entries (regs @ [reg]) [B]
          = map entry_of (filter (\<lambda>R. ServiceName R \<in> set [B]) (regs @ [reg]))"
    by (rule required_entries_distinct) simp
  also have "\<dots> = [entry_of b]" using a f by simp
  finally show "payload (initial_sync (add post reg regs))
          = \<lparr>Added = [\<lparr>Name = B, URL = ServiceURL b\<rparr>], Removed = []\<rparr>"
    using a nb by (simp add: initial_sync_add entry_of_def)
qed

theorem initial_sync_patch_witness:
  "distinct (RequireServices portal_reg)
   \<and> Added (payload (initial_sync (add always_ok portal_reg [log_reg, grading_reg])))
       = [\<lparr>Name = ''LogService'', URL = ''http://localhost:4000''\<rparr>,
          \<lparr>Name = ''GradingService'', URL = ''http://localhost:6000''\<rparr>]
   \<and> RequireServices grading_reg = [LogService] \<and> ServiceName grading_reg \<noteq> LogService
   \<and> filter (\<lambda>R. ServiceName R = LogService) [log_reg] = [log_reg]
   \<and> payload (initial_sync (add always_ok grading_reg [log_reg]))
       = \<lparr>Added = [\<lparr>Name = ''LogService'', URL = ''http://localhost:4000''\<rparr>], Removed = []\<rparr>"
proof -
  have d: "distinct (RequireServices portal_reg)" by (simp add: sample_defs)
  have h: "RequireServices grading_reg = [LogService] \<and> ServiceName grading_reg \<noteq> LogService
     \<and> filter (\<lambda>R. ServiceName R = LogService) [log_reg] = [log_reg]"
    by (simp add: sample_defs)
  from initial_sync_patch [of always_ok portal_reg "[log_reg, grading_reg]"] d
  have "Added (payload (initial_sync (add always_ok portal_reg [log_reg, grading_reg])))
     = map entry_of (filter (\<lambda>R. ServiceName R \<in> set (RequireServices portal_reg))
         ([log_reg, grading_reg] @ [portal_reg]))"
    by blast
  then have a: "Added (payload (initial_sync (add always_ok portal_reg [log_reg, grading_reg])))
       = [\<lparr>Name = ''LogService'', URL = ''http://localhost:4000''\<rparr>,
          \<lparr>Name = ''GradingService'', URL = ''http://localhost:6000''\<rparr>]"
    by (simp add: sample_defs)
  from initial_sync_patch [of always_ok grading_reg "[log_reg]" LogService log_reg] h
  have "payload (initial_sync (add always_ok grading_reg [log_reg]))
       = \<lparr>Added = [\<lparr>Name = LogService, URL = ServiceURL log_reg\<rparr>], Removed = []\<rparr>"
    by blast
  then have b: "payload (initial_sync (add always_ok grading_reg [log_reg]))
       = \<lparr>Added = [\<lparr>Name = ''LogService'', URL = ''http://localhost:4000''\<rparr>], Removed = []\<rparr>"
    by (simp add: sample_defs)
  from d h a b show ?thesis by simp
qed

text \<open>
  The claim as written takes the entries from the instances registered before. With one
  log instance registered, a second log instance that requires the log service gets its
  own entry as well; and an instance that lists the log service twice gets the entry of
  the one log instance twice.
\<close>

theorem initial_sync_includes_newcomer:
  "filter (\<lambda>R. ServiceName R = LogService) [log_reg] = [log_reg]
   \<and> payload (initial_sync (add always_ok log_peer [log_reg]))
       = \<lparr>Added = [\<lparr>Name = ''LogService'', URL = ''http://localhost:4000''\<rparr>,
                   \<lparr>Name = ''LogService'', URL = ''http://localhost:4001''\<rparr>],
          Removed = []\<rparr>
   \<and> payload (initial_sync (add always_ok twice_reg [log_reg]))
       = \<lparr>Added = [\<lparr>Name = ''LogService'', URL = ''http://localhost:4000''\<rparr>,
                   \<lparr>Name = ''LogService'', URL = ''http://localhost:4000''\<rparr>],
          Removed = []\<rparr>"
  by (simp add: eval_defs sample_defs twice_reg_def)

text \<open>
  C5 as written fails: a delivery that is answered with a status other than 200 has
  failed, but \<^verbatim>\<open>sendPatch\<close> never looks at the status. When the portal registers and answers
  its initial sync with 500, \<^verbatim>\<open>add\<close> returns no error.
\<close>

theorem add_ignores_non_ok_acknowledgement:
  "rejecting_at ''http://localhost:5000/services'' (ServiceUpdateURL portal_reg)
       (payload (initial_sync
          (add (rejecting_at ''http://localhost:5000/services'') portal_reg [log_reg])))
     = Status 500
   \<and> error (add (rejecting_at ''http://localhost:5000/services'') portal_reg [log_reg]) = None
   \<and> registrations (add (rejecting_at ''http://localhost:5000/services'') portal_reg [log_reg])
       = [log_reg, portal_reg]"
  by (simp add: eval_defs portal_reg_def)

text \<open>
  C5, amended. \<^verbatim>\<open>add\<close> returns an error exactly when the post of the initial sync to the
  new registration gets no response (a transport error), and then it returns that error;
  when that post gets a response, of whatever status, \<^verbatim>\<open>add\<close> returns no error. What the
  posts of the fan-out get back does not matter: two environments that give the same reply
  to the post of the initial sync make \<^verbatim>\<open>add\<close> return the same. The new registration is in
  the list in every case.
\<close>

theorem add_error_is_initial_sync_transport_error:
  "(\<forall>e. post (ServiceUpdateURL reg) (payload (initial_sync (add post reg regs))) = NetError e
         \<longrightarrow> error (add post reg regs) = Some (PostError e))
   \<and> (\<forall>code. post (ServiceUpdateURL reg) (payload (initial_sync (add post reg regs))) = Status code
         \<longrightarrow> error (add post reg regs) = None)
   \<and> registrations (add post reg regs) = regs @ [reg]
   \<and> (\<forall>post'. post' (ServiceUpdateURL reg) (payload (initial_sync (add post reg regs)))
                 = post (ServiceUpdateURL reg) (payload (initial_sync (add post reg regs)))
         \<longrightarrow> error (add post' reg regs) = error (add post reg regs))"
  by (simp add: initial_sync_add error_add registrations_add sendPatch_def)

theorem add_error_is_initial_sync_transport_error_witness:
  "always_ok (ServiceUpdateURL log_reg)
       (payload (initial_sync (add (down_at ''http://localhost:6000/services'') log_reg [grading_reg])))
     = down_at ''http://localhost:6000/services'' (ServiceUpdateURL log_reg)
       (payload (initial_sync (add (down_at ''http://localhost:6000/services'') log_reg [grading_reg])))
   \<and> map failure (fanout (add (down_at ''http://localhost:6000/services'') log_reg [grading_reg]))
       = [Some (PostError ''connection refused'')]
   \<and> error (add (down_at ''http://localhost:6000/services'') log_reg [grading_reg]) = None
   \<and> error (add always_ok log_reg [grading_reg]) = None
   \<and> down_at ''http://localhost:5000/services'' (ServiceUpdateURL portal_reg)
       (payload (initial_sync (add (down_at ''http://localhost:5000/services'') portal_reg [log_reg])))
     = NetError ''connection refused''
   \<and> error (add (down_at ''http://localhost:5000/services'') portal_reg [log_reg])
       = Some (PostError ''connection refused'')
   \<and> registrations (add (down_at ''http://localhost:5000/services'') portal_reg [log_reg])
       = [log_reg, portal_reg]"
proof -
  let ?down = "down_at ''http://localhost:6000/services''"
  let ?dead = "down_at ''http://localhost:5000/services''"
  have h: "always_ok (ServiceUpdateURL log_reg)
       (payload (initial_sync (add ?down log_reg [grading_reg])))
     = ?down (ServiceUpdateURL log_reg)
       (payload (initial_sync (add ?down log_reg [grading_reg])))"
    by (simp add: always_ok_def down_at_def log_reg_def)
  have f: "map failure (fanout (add ?down log_reg [grading_reg]))
       = [Some (PostError ''connection refused'')]"
    by (simp add: eval_defs sample_defs)
  have s: "?down (ServiceUpdateURL log_reg)
       (payload (initial_sync (add ?down log_reg [grading_reg]))) = Status 200"
    by (simp add: down_at_def log_reg_def)
  from add_error_is_initial_sync_transport_error [of ?down log_reg "[grading_reg]"] s
  have e0: "error (add ?down log_reg [grading_reg]) = None"
    by blast
  from add_error_is_initial_sync_transport_error [of ?down log_reg "[grading_reg]"] h
  have e: "error (add always_ok log_reg [grading_reg]) = error (add ?down log_reg [grading_reg])"
    by blast
  have n: "?dead (ServiceUpdateURL portal_reg)
       (payload (initial_sync (add ?dead portal_reg [log_reg]))) = NetError ''connection refused''"
    by (simp add: down_at_def portal_reg_def)
  from add_error_is_initial_sync_transport_error [of ?dead portal_reg "[log_reg]"] n
  have p: "error (add ?dead portal_reg [log_reg]) = Some (PostError ''connection refused'')"
    by blast
  from add_error_is_initial_sync_transport_error [of ?dead portal_reg "[log_reg]"]
  have r: "registrations (add ?dead portal_reg [log_reg]) = [log_reg] @ [portal_reg]"
    by blast
  from h f e e0 n p r show ?thesis by simp
qed

text \<open>
  C3 as written fails: a registration with an empty name and an empty URL is appended, and
  the handler answers 200.
\<close>

theorem add_accepts_empty_name_and_url:
  "ServiceName blank_reg = [] \<and> ServiceURL blank_reg = []
   \<and> error (add always_ok blank_reg [log_reg]) = None
   \<and> registrations (add always_ok blank_reg [log_reg]) = [log_reg, blank_reg]
   \<and> ServeHTTP always_ok (POST (Some blank_reg)) [log_reg] = (200, [log_reg, blank_reg])"
  by (simp add: eval_defs blank_reg_def)

text \<open>
  C3, amended. \<^verbatim>\<open>add\<close> does not look at ServiceName or ServiceURL: a registration with an
  empty name or an empty URL is appended like any other, also through the handler, and the
  error returned is the error of the initial-sync post.
\<close>

theorem add_performs_no_validation:
  "ServiceName reg = [] \<or> ServiceURL reg = [] \<Longrightarrow>
   registrations (add post reg regs) = regs @ [reg]
   \<and> error (add post reg regs) = failure (initial_sync (add post reg regs))
   \<and> snd (ServeHTTP post (POST (Some reg)) regs) = regs @ [reg]"
  by (simp add: initial_sync_add error_add registrations_add Let_def)

theorem add_performs_no_validation_witness:
  "(ServiceName blank_reg = [] \<or> ServiceURL blank_reg = [])
   \<and> registrations (add (down_at ''http://localhost:7000/services'') blank_reg [log_reg])
       = [log_reg, blank_reg]
   \<and> error (add (down_at ''http://localhost:7000/services'') blank_reg [log_reg])
       = Some (PostError ''connection refused'')
   \<and> snd (ServeHTTP (down_at ''http://localhost:7000/services'') (POST (Some blank_reg)) [log_reg])
       = [log_reg, blank_reg]"
proof -
  have h: "ServiceName blank_reg = [] \<or> ServiceURL blank_reg = []"
    by (simp add: blank_reg_def)
  have "failure (initial_sync (add (down_at ''http://localhost:7000/services'') blank_reg [log_reg]))
      = Some (PostError ''connection refused'')"
    by (simp add: eval_defs blank_reg_def)
  with h add_performs_no_validation [OF h, of "down_at ''http://localhost:7000/services''" "[log_reg]"]
  show ?thesis by simp
qed

section \<open>Sequences of requests\<close>

lemma run_ops_adds: "run_ops post (map Add rs) regs = regs @ rs"
  by (induction rs arbitrary: regs) (simp_all add: registrations_add)

text \<open>
  C9 as written fails: \<^verbatim>\<open>add\<close> appends without looking for the URL, so adding the same
  registration twice leaves two registrations with one ServiceURL.
\<close>

theorem duplicate_url_after_two_adds:
  "run_ops always_ok [Add log_reg, Add log_reg] [] = [log_reg, log_reg]
   \<and> \<not> distinct (map ServiceURL (run_ops always_ok [Add log_reg, Add log_reg] []))"
  by (simp add: registrations_add)

text \<open>
  C9, amended. Starting from the empty directory, a sequence of Adds whose ServiceURLs are
  pairwise distinct leaves a list in which no two registrations have the same ServiceURL.
\<close>

theorem distinct_adds_keep_urls_unique:
  "distinct (map ServiceURL rs) \<Longrightarrow>
   distinct (map ServiceURL (run_ops post (map Add rs) []))"
  by (simp add: run_ops_adds)

theorem distinct_adds_keep_urls_unique_witness:
  "distinct (map ServiceURL [log_reg, grading_reg, portal_reg])
   \<and> distinct (map ServiceURL
        (run_ops always_ok (map Add [log_reg, grading_reg, portal_reg]) []))"
proof -
  have h: "distinct (map ServiceURL [log_reg, grading_reg, portal_reg])"
    by (simp add: sample_defs)
  show ?thesis using h distinct_adds_keep_urls_unique [OF h, of always_ok] by simp
qed

end
